theory Spec2Isabelle
  imports Main "HOL-Library.Char_ord" "HOL-Library.List_Lexorder" "HOL-Library.Multiset"
begin

section \<open>Date-indexed queries over a table of confirmed cases (hw1.py)\<close>

subsection \<open>Data model\<close>

text \<open>
  The three exceptions the module can raise. \<open>ValueError\<close> is raised by
  \<open>get_date_str\<close> (and by \<open>strptime\<close>); the specification calls it InvalidDateError.
  \<open>KeyError\<close> is what pandas raises when a column label is missing (DateNotFoundError),
  and \<open>IndexError\<close> is what \<open>.iloc[0]\<close> raises on an empty selection
  (CountryNotFoundError).
\<close>

datatype error = ValueError | KeyError | IndexError

text \<open>
  The data frame \<open>confirmed_cases\<close>: its date columns, in order, and its rows, in order.
  A row carries its \<open>Country/Region\<close> label and an integer cell for every column label;
  whether a label is a column of the frame is decided by \<open>columns\<close> alone. The frame is a
  module-level global in the source; here it is the first argument of every query.
\<close>

record row =
  country :: string
  cells :: "string \<Rightarrow> int"

record table =
  columns :: "string list"
  rows :: "row list"

subsection \<open>Python's \<open>str\<close> on integers\<close>

text \<open>
  \<open>str(i)\<close> is the decimal numeral of \<open>i\<close>, with a minus sign for a negative number and
  no leading zero. \<open>digit_char\<close> is only applied to numbers below ten.
\<close>

definition digit_char :: "nat \<Rightarrow> char" where
  "digit_char n = ''0123456789'' ! n"

fun str_nat :: "nat \<Rightarrow> string" where
  "str_nat n = (if n < 10 then [digit_char n] else str_nat (n div 10) @ [digit_char (n mod 10)])"

declare str_nat.simps [simp del]

definition str_int :: "int \<Rightarrow> string" where
  "str_int i = (if i < 0 then CHR ''-'' # str_nat (nat (- i)) else str_nat (nat i))"

subsection \<open>\<open>get_date_str\<close>\<close>

text \<open>
  \<^verbatim>\<open>
  def get_date_str(day: int, month: int, year: int = 2020):
      if not 1 <= day <= 31 or not 1 <= month <= 12 or not 2000 <= year <= 2020:
          raise ValueError("Incorrect arguments")
      return str(month) + '/' + str(day) + '/' + str(year)[2:]
  \<close>
\<close>

definition get_date_str :: "int \<Rightarrow> int \<Rightarrow> int \<Rightarrow> error + string" where
  "get_date_str day month year =
     (if \<not> (1 \<le> day \<and> day \<le> 31) \<or> \<not> (1 \<le> month \<and> month \<le> 12)
         \<or> \<not> (2000 \<le> year \<and> year \<le> 2020)
      then Inl ValueError
      else Inr (str_int month @ ''/'' @ str_int day @ ''/'' @ drop 2 (str_int year)))"

subsection \<open>\<open>poland_cases_by_date\<close>\<close>

text \<open>
  \<^verbatim>\<open>
  date = get_date_str(day, month, year)
  poland_data = confirmed_cases.loc[confirmed_cases[country_col_name] == "Poland"]
  return poland_data[date].iloc[0]
  \<close>
  The row selection cannot fail; \<open>poland_data[date]\<close> raises \<open>KeyError\<close> when \<open>date\<close> is
  not a column, also on an empty selection; \<open>.iloc[0]\<close> raises \<open>IndexError\<close> when the
  selection is empty.
\<close>

definition poland_cases_by_date :: "table \<Rightarrow> int \<Rightarrow> int \<Rightarrow> int \<Rightarrow> error + int" where
  "poland_cases_by_date confirmed_cases day month year =
     (case get_date_str day month year of
        Inl e \<Rightarrow> Inl e
      | Inr date \<Rightarrow>
          (let poland_data = filter (\<lambda>r. country r = ''Poland'') (rows confirmed_cases)
           in if date \<notin> set (columns confirmed_cases) then Inl KeyError
              else (case poland_data of
                      [] \<Rightarrow> Inl IndexError
                    | r # _ \<Rightarrow> Inr (cells r date))))"

text \<open>
  The same body, statement by statement, on the state of the module. The state holds the
  data frames that are alive, each at its address (its position in \<open>frames\<close>), and the
  address the module-level name \<open>confirmed_cases\<close> is bound to. A state is valid when
  that address is the address of a frame.
\<close>

record module_state =
  frames :: "table list"
  confirmed_cases_ref :: nat

definition valid_state :: "module_state \<Rightarrow> bool" where
  "valid_state s = (confirmed_cases_ref s < length (frames s))"

text \<open>
  \<open>df.loc[df[country_col_name] == name]\<close>: selection by a boolean mask. pandas builds a new
  frame with the selected rows and the same columns, at a fresh address; the result of the
  expression is that address.
\<close>

definition loc_country_eq :: "string \<Rightarrow> nat \<Rightarrow> module_state \<Rightarrow> nat \<times> module_state" where
  "loc_country_eq name df s =
     (let selected = \<lparr>columns = columns (frames s ! df),
                       rows = filter (\<lambda>r. country r = name) (rows (frames s ! df))\<rparr>
      in (length (frames s), s\<lparr>frames := frames s @ [selected]\<rparr>))"

text \<open>
  \<open>df[date].iloc[0]\<close>: the column is looked up (\<open>KeyError\<close> when it is missing), then
  its first entry is read (\<open>IndexError\<close> when the frame has no row).
\<close>

definition getitem_iloc0 :: "string \<Rightarrow> nat \<Rightarrow> module_state \<Rightarrow> error + int" where
  "getitem_iloc0 date df s =
     (if date \<notin> set (columns (frames s ! df)) then Inl KeyError
      else (case rows (frames s ! df) of
              [] \<Rightarrow> Inl IndexError
            | r # _ \<Rightarrow> Inr (cells r date)))"

text \<open>
  A call of \<open>poland_cases_by_date\<close>: the value returned or the exception raised, and the
  state of the module after the call. The locals \<open>date\<close> and \<open>poland_data\<close> end with
  the call; the frame that \<open>poland_data\<close> named stays in the state.
\<close>

definition call_poland_cases_by_date ::
    "int \<Rightarrow> int \<Rightarrow> int \<Rightarrow> module_state \<Rightarrow> (error + int) \<times> module_state" where
  "call_poland_cases_by_date day month year s =
     (case get_date_str day month year of
        Inl e \<Rightarrow> (Inl e, s)
      | Inr date \<Rightarrow>
          (case loc_country_eq ''Poland'' (confirmed_cases_ref s) s of
             (poland_data, s') \<Rightarrow> (getitem_iloc0 date poland_data s', s')))"

subsection \<open>\<open>top5_countries_by_date\<close>\<close>

text \<open>
  \<^verbatim>\<open>
  date = get_date_str(day, month, year)
  infections_per_country = confirmed_cases[[country_col_name, date]].groupby([country_col_name]).sum()
  ranking = infections_per_country.sort_values(by=date, ascending=False).head(5)
  return list(ranking.index)
  \<close>
  \<open>groupby\<close> is called with its default \<open>sort=True\<close>: the groups come out in ascending
  order of the label (Python's string order: lexicographic on code points), one group per
  distinct label, each with the sum of the selected column over the rows of the group
  (\<open>group_sum\<close>).
\<close>

definition group_sum :: "table \<Rightarrow> string \<Rightarrow> string \<Rightarrow> int" where
  "group_sum df date l = sum_list (map (\<lambda>r. cells r date) (filter (\<lambda>r. country r = l) (rows df)))"

definition groupby_sum :: "table \<Rightarrow> string \<Rightarrow> (string \<times> int) list" where
  "groupby_sum df date =
     map (\<lambda>l. (l, group_sum df date l)) (sort (remdups (map country (rows df))))"

text \<open>
  \<open>sort_values(by=date, ascending=False)\<close> runs with the default \<open>kind='quicksort'\<close>, which
  numpy does not promise to be stable: the order of rows with equal values is left to the
  sorting routine. The routine is therefore an argument of the model, and what pandas
  promises of it is \<open>sorts_descending\<close>: the rows are rearranged, in non-increasing order
  of the value.
\<close>

definition sorts_descending :: "((string \<times> int) list \<Rightarrow> (string \<times> int) list) \<Rightarrow> bool" where
  "sorts_descending sort_values =
     (\<forall>gs. mset (sort_values gs) = mset gs \<and> sorted_wrt (\<lambda>a b. snd b \<le> snd a) (sort_values gs))"

text \<open>
  With a stable routine pandas sorts in descending order by reversing the rows, sorting
  them in ascending order and reversing the outcome. This is also what the default routine
  does on short inputs, where numpy's quicksort is an insertion sort.
\<close>

definition stable_sort_values :: "(string \<times> int) list \<Rightarrow> (string \<times> int) list" where
  "stable_sort_values gs = rev (sort_key snd (rev gs))"

definition top5_countries_by_date ::
    "((string \<times> int) list \<Rightarrow> (string \<times> int) list) \<Rightarrow> table \<Rightarrow> int \<Rightarrow> int \<Rightarrow> int
      \<Rightarrow> error + string list" where
  "top5_countries_by_date sort_values confirmed_cases day month year =
     (case get_date_str day month year of
        Inl e \<Rightarrow> Inl e
      | Inr date \<Rightarrow>
          if date \<notin> set (columns confirmed_cases) then Inl KeyError
          else (let infections_per_country = groupby_sum confirmed_cases date;
                    ranking = take 5 (sort_values infections_per_country)
                in Inr (map fst ranking)))"

text \<open>
  The ranking as the specification words it: the groups in order of first appearance,
  sorted by their sum in descending order with a stable sort, cut after \<open>n\<close> labels.
\<close>

definition first_appearance :: "string list \<Rightarrow> string list" where
  "first_appearance ls = rev (remdups (rev ls))"

definition spec_top_n :: "nat \<Rightarrow> table \<Rightarrow> string \<Rightarrow> string list" where
  "spec_top_n n df date =
     take n (map fst (sort_key (\<lambda>g. - snd g)
       (map (\<lambda>l. (l, group_sum df date l)) (first_appearance (map country (rows df))))))"

subsection \<open>\<open>no_new_cases_count\<close>\<close>

text \<open>
  Dates of the proleptic Gregorian calendar, as \<open>datetime\<close> has them: year, month, day.
\<close>

type_synonym datetime = "int \<times> int \<times> int"

definition is_leap :: "int \<Rightarrow> bool" where
  "is_leap y = (y mod 4 = 0 \<and> (y mod 100 \<noteq> 0 \<or> y mod 400 = 0))"

definition days_in_month :: "int \<Rightarrow> int \<Rightarrow> int" where
  "days_in_month y m =
     (if m = 2 then (if is_leap y then 29 else 28)
      else if m = 4 \<or> m = 6 \<or> m = 9 \<or> m = 11 then 30 else 31)"

text \<open>
  \<open>strptime(date, '%m/%d/%y')\<close>. The string has to be three fields separated by
  \<open>/\<close>: a month \<open>1[0-2]|0[1-9]|[1-9]\<close>, a day \<open>3[01]|[12]\\d|0[1-9]|[1-9]| [1-9]\<close> and a
  year of exactly two digits, read as 2000 + yy up to 68 and as 1900 + yy above. A string
  of another shape, and a day that the month does not have, raise \<open>ValueError\<close>.
\<close>

fun split_slash :: "string \<Rightarrow> string list" where
  "split_slash [] = [[]]"
| "split_slash (c # s) =
     (if c = CHR ''/'' then [] # split_slash s
      else (case split_slash s of [] \<Rightarrow> [[c]] | f # fs \<Rightarrow> (c # f) # fs))"

definition digit_val :: "char \<Rightarrow> int" where
  "digit_val c = int (length (takeWhile (\<lambda>d. d \<noteq> c) ''0123456789''))"

fun parse_month :: "string \<Rightarrow> int option" where
  "parse_month [a] = (if a \<in> set ''123456789'' then Some (digit_val a) else None)"
| "parse_month [a, b] =
     (if a = CHR ''1'' \<and> b \<in> set ''012'' then Some (10 + digit_val b)
      else if a = CHR ''0'' \<and> b \<in> set ''123456789'' then Some (digit_val b)
      else None)"
| "parse_month _ = None"

fun parse_day :: "string \<Rightarrow> int option" where
  "parse_day [a] = (if a \<in> set ''123456789'' then Some (digit_val a) else None)"
| "parse_day [a, b] =
     (if a = CHR ''3'' \<and> b \<in> set ''01'' then Some (30 + digit_val b)
      else if a \<in> set ''12'' \<and> b \<in> set ''0123456789'' then Some (10 * digit_val a + digit_val b)
      else if a \<in> set ''0 '' \<and> b \<in> set ''123456789'' then Some (digit_val b)
      else None)"
| "parse_day _ = None"

fun parse_year :: "string \<Rightarrow> int option" where
  "parse_year [a, b] =
     (if a \<in> set ''0123456789'' \<and> b \<in> set ''0123456789''
      then (let yy = 10 * digit_val a + digit_val b
            in Some (if yy \<le> 68 then 2000 + yy else 1900 + yy))
      else None)"
| "parse_year _ = None"

definition strptime :: "string \<Rightarrow> error + datetime" where
  "strptime s =
     (case split_slash s of
        [fm, fd, fy] \<Rightarrow>
          (case (parse_month fm, parse_day fd, parse_year fy) of
             (Some m, Some d, Some y) \<Rightarrow>
               if d \<le> days_in_month y m then Inr (y, m, d) else Inl ValueError
           | _ \<Rightarrow> Inl ValueError)
      | _ \<Rightarrow> Inl ValueError)"

text \<open>
  \<open>dt - timedelta(days=1)\<close>. (The years met here are 1969 and later, far from
  \<open>datetime.min\<close>.)
\<close>

fun minus_one_day :: "datetime \<Rightarrow> datetime" where
  "minus_one_day (y, m, d) =
     (if 1 < d then (y, m, d - 1)
      else if 1 < m then (y, m - 1, days_in_month y (m - 1))
      else (y - 1, 12, 31))"

text \<open>\<open>strftime('%m/%d/%y')\<close>: every field zero-padded to two digits.\<close>

definition pad2 :: "int \<Rightarrow> string" where
  "pad2 n = (if n < 10 then CHR ''0'' # str_int n else str_int n)"

fun strftime :: "datetime \<Rightarrow> string" where
  "strftime (y, m, d) = pad2 m @ ''/'' @ pad2 d @ ''/'' @ pad2 (y mod 100)"

text \<open>\<open>re.sub(r"^0", "", s)\<close>: a zero at the very start is removed.\<close>

fun sub_start_zero :: "string \<Rightarrow> string" where
  "sub_start_zero [] = []"
| "sub_start_zero (c # s) = (if c = CHR ''0'' then s else c # s)"

text \<open>
  \<open>re.sub(r"/0", "/", s)\<close>: every occurrence of \<open>/0\<close>, found from left to right without
  overlap, is replaced by \<open>/\<close>; the replacement is not scanned again.
\<close>

fun sub_slash_zero :: "string \<Rightarrow> string" where
  "sub_slash_zero (c # d # s) =
     (if c = CHR ''/'' \<and> d = CHR ''0'' then CHR ''/'' # sub_slash_zero s
      else c # sub_slash_zero (d # s))"
| "sub_slash_zero s = s"

text \<open>
  \<^verbatim>\<open>
  date = get_date_str(day, month, year)
  prev_date = (pd.datetime.strptime(date, date_format) - timedelta(days=1)).strftime(date_format)
  prev_date = re.sub(r"^0", "", prev_date)
  prev_date = re.sub(r"/0", "/", prev_date)
  infections_per_country = confirmed_cases[[country_col_name, date, prev_date]]
  filtered_data = infections_per_country.loc[infections_per_country[date] != infections_per_country[prev_date]]
  return len(filtered_data.index)
  \<close>
  Selecting the columns raises \<open>KeyError\<close> when one of the two labels is missing.
\<close>

definition no_new_cases_count :: "table \<Rightarrow> int \<Rightarrow> int \<Rightarrow> int \<Rightarrow> error + int" where
  "no_new_cases_count confirmed_cases day month year =
     (case get_date_str day month year of
        Inl e \<Rightarrow> Inl e
      | Inr date \<Rightarrow>
          (case strptime date of
             Inl e \<Rightarrow> Inl e
           | Inr dt \<Rightarrow>
               (let prev_date = strftime (minus_one_day dt);
                    prev_date = sub_start_zero prev_date;
                    prev_date = sub_slash_zero prev_date
                in if date \<notin> set (columns confirmed_cases)
                      \<or> prev_date \<notin> set (columns confirmed_cases)
                   then Inl KeyError
                   else Inr (int (length (filter (\<lambda>r. cells r date \<noteq> cells r prev_date)
                                            (rows confirmed_cases)))))))"

text \<open>
  The key of a calendar day in the format of \<open>get_date_str\<close>: month and day unpadded,
  the last two digits of the year.
\<close>

definition date_key :: "datetime \<Rightarrow> string" where
  "date_key dt = (case dt of (y, m, d) \<Rightarrow> str_int m @ ''/'' @ str_int d @ ''/'' @ drop 2 (str_int y))"

subsection \<open>Sample frames\<close>

text \<open>
  Small frames on which the functions are run below. \<open>cells_of\<close> builds the cells of a
  row from the listed values, zero elsewhere.
\<close>

definition cells_of :: "(string \<times> int) list \<Rightarrow> string \<Rightarrow> int" where
  "cells_of kvs k = (case map_of kvs k of Some v \<Rightarrow> v | None \<Rightarrow> 0)"

definition sample_table :: table where
  "sample_table =
     \<lparr>columns = [''3/6/20'', ''3/7/20''],
      rows = [\<lparr>country = ''Poland'', cells = cells_of [(''3/6/20'', 1), (''3/7/20'', 5)]\<rparr>,
              \<lparr>country = ''Germany'', cells = cells_of [(''3/6/20'', 9), (''3/7/20'', 9)]\<rparr>,
              \<lparr>country = ''Poland'', cells = cells_of [(''3/6/20'', 8), (''3/7/20'', 7)]\<rparr>]\<rparr>"

definition tied_table :: table where
  "tied_table =
     \<lparr>columns = [''3/7/20''],
      rows = [\<lparr>country = ''Poland'', cells = cells_of [(''3/7/20'', 5)]\<rparr>,
              \<lparr>country = ''Germany'', cells = cells_of [(''3/7/20'', 5)]\<rparr>]\<rparr>"

definition germany_table :: table where
  "germany_table =
     \<lparr>columns = [''3/7/20''],
      rows = [\<lparr>country = ''Germany'', cells = cells_of [(''3/7/20'', 5)]\<rparr>]\<rparr>"

definition table_2005 :: table where
  "table_2005 =
     \<lparr>columns = [''3/7/05'', ''3/8/05''],
      rows = [\<lparr>country = ''Poland'', cells = cells_of [(''3/7/05'', 1), (''3/8/05'', 2)]\<rparr>]\<rparr>"

definition sample_state :: module_state where
  "sample_state = \<lparr>frames = [sample_table], confirmed_cases_ref = 0\<rparr>"

section \<open>Properties\<close>

subsection \<open>Decimal numerals\<close>

lemma digit_char_enum:
  "\<forall>k\<in>set [0..<10]. (digit_char k = CHR ''0'') = (k = 0) \<and> digit_char k \<noteq> CHR ''/''"
  by (simp add: digit_char_def upt_rec)

lemma digit_char_zero: "k < 10 \<Longrightarrow> (digit_char k = CHR ''0'') = (k = 0)"
  using digit_char_enum by simp

lemma digit_char_not_slash: "k < 10 \<Longrightarrow> digit_char k \<noteq> CHR ''/''"
  using digit_char_enum by simp

lemma str_nat_1: "n < 10 \<Longrightarrow> str_nat n = [digit_char n]"
  by (simp add: str_nat.simps)

lemma str_nat_2:
  "10 \<le> n \<Longrightarrow> n < 100 \<Longrightarrow> str_nat n = [digit_char (n div 10), digit_char (n mod 10)]"
  by (subst str_nat.simps) (simp add: str_nat_1)

lemma str_nat_3:
  "100 \<le> n \<Longrightarrow> n < 1000 \<Longrightarrow>
     str_nat n = [digit_char (n div 100), digit_char (n div 10 mod 10), digit_char (n mod 10)]"
  by (subst str_nat.simps) (simp add: str_nat_2 div_mult2_eq[symmetric])

lemma str_nat_4:
  "1000 \<le> n \<Longrightarrow> n < 10000 \<Longrightarrow>
     str_nat n = [digit_char (n div 1000), digit_char (n div 100 mod 10),
                  digit_char (n div 10 mod 10), digit_char (n mod 10)]"
  by (subst str_nat.simps) (simp add: str_nat_3 div_mult2_eq[symmetric])

lemma str_nat_no_slash: "CHR ''/'' \<notin> set (str_nat n)"
proof (induction n rule: str_nat.induct)
  case (1 n)
  show ?case
  proof (cases "n < 10")
    case True
    then have "digit_char n \<noteq> CHR ''/''" by (rule digit_char_not_slash)
    with True show ?thesis by (auto simp: str_nat_1)
  next
    case False
    with 1 have "CHR ''/'' \<notin> set (str_nat (n div 10))" by simp
    moreover have "digit_char (n mod 10) \<noteq> CHR ''/''" by (rule digit_char_not_slash) simp
    ultimately show ?thesis using False by (subst str_nat.simps) auto
  qed
qed

lemma str_nat_nonempty: "str_nat n \<noteq> []"
  by (subst str_nat.simps) simp

lemma str_nat_hd: "0 < n \<Longrightarrow> hd (str_nat n) \<noteq> CHR ''0''"
proof (induction n rule: str_nat.induct)
  case (1 n)
  show ?case
  proof (cases "n < 10")
    case True
    with 1(2) show ?thesis by (simp add: str_nat_1 digit_char_zero)
  next
    case False
    then have "0 < n div 10" by simp
    with 1 False have "hd (str_nat (n div 10)) \<noteq> CHR ''0''" by simp
    then show ?thesis using False by (subst str_nat.simps) (simp add: str_nat_nonempty)
  qed
qed

lemma str_int_nonempty: "str_int n \<noteq> []"
  by (simp add: str_int_def str_nat_nonempty)

lemma str_int_no_slash: "CHR ''/'' \<notin> set (str_int n)"
  by (simp add: str_int_def str_nat_no_slash)

lemma str_int_hd: "1 \<le> n \<Longrightarrow> hd (str_int n) \<noteq> CHR ''0''"
  by (simp add: str_int_def str_nat_hd)

lemma year_suffix_enum: "\<forall>y\<in>set [2000..2020]. drop 2 (str_int y) = pad2 (y mod 100)"
  by (simp del: set_upto add: pad2_def str_int_def str_nat_1 str_nat_2 str_nat_4 digit_char_def)

lemma year_suffix:
  assumes "2000 \<le> y" "y \<le> 2020"
  shows "drop 2 (str_int y) = pad2 (y mod 100)"
proof -
  from assms have "y \<in> set [2000..2020]" by (simp only: set_upto atLeastAtMost_iff)
  with year_suffix_enum show ?thesis by blast
qed

lemma mod_100_digits:
  fixes n :: nat
  shows "n mod 100 div 10 = n div 10 mod 10" and "n mod 100 mod 10 = n mod 10"
proof -
  have "n mod 100 = 10 * (n div 10 mod 10) + n mod 10"
    using mod_mult2_eq [of n 10 10] by simp
  then show "n mod 100 div 10 = n div 10 mod 10" and "n mod 100 mod 10 = n mod 10"
    by simp_all
qed

lemma year_suffix_two_digits:
  assumes "1000 \<le> y" "y < 10000" "10 \<le> y mod 100"
  shows "drop 2 (str_int y) = str_int (y mod 100)"
proof -
  define n where "n = nat y"
  have m: "nat (y mod 100) = n mod 100"
    using assms(1) by (simp add: n_def nat_mod_distrib)
  have n: "1000 \<le> n" "n < 10000" using assms by (simp_all add: n_def)
  have "10 \<le> nat (y mod 100)" using assms(3) by simp
  then have n100: "10 \<le> n mod 100" by (simp add: m)
  have "drop 2 (str_nat n) = [digit_char (n div 10 mod 10), digit_char (n mod 10)]"
    using n by (simp add: str_nat_4)
  also have "\<dots> = str_nat (n mod 100)"
    using n100 by (simp add: str_nat_2 mod_100_digits)
  finally have "drop 2 (str_nat n) = str_nat (n mod 100)" .
  moreover have "\<not> y < 0" "\<not> y mod 100 < 0" using assms by simp_all
  ultimately show ?thesis
    by (simp add: str_int_def m flip: n_def)
qed

subsection \<open>Parsing a formatted date back\<close>

lemma split_slash_nonempty: "split_slash s \<noteq> []"
  by (induction s) (auto split: list.splits)

lemma split_slash_field: "CHR ''/'' \<notin> set a \<Longrightarrow> split_slash a = [a]"
  by (induction a) auto

lemma split_slash_append:
  "CHR ''/'' \<notin> set a \<Longrightarrow> split_slash (a @ CHR ''/'' # b) = a # split_slash b"
  by (induction a) auto

lemma month_roundtrip_enum: "\<forall>m\<in>set [1..12]. parse_month (str_int m) = Some m"
  by (simp del: set_upto add: upto_rec1 str_int_def str_nat_1 str_nat_2 digit_char_def digit_val_def)

lemma day_roundtrip_enum: "\<forall>d\<in>set [1..31]. parse_day (str_int d) = Some d"
  by (simp del: set_upto add: upto_rec1 str_int_def str_nat_1 str_nat_2 digit_char_def digit_val_def)

lemma year_roundtrip_enum: "\<forall>y\<in>set [2000..2020]. parse_year (drop 2 (str_int y)) = Some y"
  by (simp del: set_upto add: str_int_def str_nat_4 digit_char_def digit_val_def)

lemma strptime_formatted:
  assumes "1 \<le> d" "d \<le> 31" "1 \<le> m" "m \<le> 12" "2000 \<le> y" "y \<le> 2020"
  shows "strptime (str_int m @ ''/'' @ str_int d @ ''/'' @ drop 2 (str_int y))
           = (if d \<le> days_in_month y m then Inr (y, m, d) else Inl ValueError)"
proof -
  have "CHR ''/'' \<notin> set (drop 2 (str_int y))"
    using str_int_no_slash [of y] by (auto dest: in_set_dropD)
  then have s: "split_slash (str_int m @ ''/'' @ str_int d @ ''/'' @ drop 2 (str_int y))
                  = [str_int m, str_int d, drop 2 (str_int y)]"
    by (simp add: split_slash_append split_slash_field str_int_no_slash)
  from assms have "m \<in> set [1..12]" "d \<in> set [1..31]" "y \<in> set [2000..2020]"
    by (simp_all only: set_upto atLeastAtMost_iff)
  then have p: "parse_month (str_int m) = Some m" "parse_day (str_int d) = Some d"
      "parse_year (drop 2 (str_int y)) = Some y"
    using month_roundtrip_enum day_roundtrip_enum year_roundtrip_enum by blast+
  show ?thesis
    unfolding strptime_def s by (simp add: p)
qed

subsection \<open>Stripping the padding of a formatted date\<close>

lemma sub_slash_zero_other: "c \<noteq> CHR ''/'' \<Longrightarrow> sub_slash_zero (c # s) = c # sub_slash_zero s"
  by (cases s) simp_all

lemma sub_slash_zero_append:
  "CHR ''/'' \<notin> set a \<Longrightarrow> sub_slash_zero (a @ t) = a @ sub_slash_zero t"
  by (induction a) (auto simp: sub_slash_zero_other)

lemma sub_slash_zero_unpadded:
  assumes "s \<noteq> []" "hd s \<noteq> CHR ''0''" "CHR ''/'' \<notin> set s"
  shows "sub_slash_zero (CHR ''/'' # s @ t) = CHR ''/'' # s @ sub_slash_zero t"
proof -
  from assms(1) obtain c cs where s: "s = c # cs" by (cases s) auto
  with assms(2) have "sub_slash_zero (CHR ''/'' # s @ t) = CHR ''/'' # sub_slash_zero (s @ t)"
    by simp
  with assms(3) show ?thesis by (simp add: sub_slash_zero_append)
qed

lemma sub_slash_zero_padded:
  assumes "CHR ''/'' \<notin> set s"
  shows "sub_slash_zero (CHR ''/'' # CHR ''0'' # s @ t) = CHR ''/'' # s @ sub_slash_zero t"
  using assms by (simp add: sub_slash_zero_append)

lemma sub_slash_zero_pad2:
  assumes "1 \<le> n"
  shows "sub_slash_zero (CHR ''/'' # pad2 n @ t) = CHR ''/'' # str_int n @ sub_slash_zero t"
proof (cases "n < 10")
  case True
  then show ?thesis
    using sub_slash_zero_padded [OF str_int_no_slash, of n t] by (simp add: pad2_def)
next
  case False
  then show ?thesis
    using sub_slash_zero_unpadded [OF str_int_nonempty str_int_hd [OF assms] str_int_no_slash, of t]
    by (simp add: pad2_def)
qed

lemma sub_start_zero_pad2:
  assumes "1 \<le> n"
  shows "sub_start_zero (pad2 n @ t) = str_int n @ t"
proof (cases "n < 10")
  case True
  then show ?thesis by (simp add: pad2_def)
next
  case False
  obtain c cs where s: "str_int n = c # cs"
    using str_int_nonempty [of n] by (cases "str_int n") auto
  with str_int_hd [OF assms] have "c \<noteq> CHR ''0''" by simp
  with False s show ?thesis by (simp add: pad2_def)
qed

lemma prev_date_unpadded:
  assumes "1 \<le> m" "1 \<le> d" "10 \<le> y mod 100"
  shows "sub_slash_zero (sub_start_zero (strftime (y, m, d)))
           = str_int m @ ''/'' @ str_int d @ ''/'' @ str_int (y mod 100)"
proof -
  have yy: "1 \<le> y mod 100" using assms(3) by simp
  have "sub_start_zero (strftime (y, m, d))
          = str_int m @ CHR ''/'' # pad2 d @ CHR ''/'' # pad2 (y mod 100) @ []"
    using sub_start_zero_pad2 [OF assms(1)] by simp
  then have "sub_slash_zero (sub_start_zero (strftime (y, m, d)))
          = str_int m @ sub_slash_zero (CHR ''/'' # pad2 d @ CHR ''/'' # pad2 (y mod 100) @ [])"
    by (simp only: sub_slash_zero_append [OF str_int_no_slash])
  also have "\<dots> = str_int m @ CHR ''/'' # str_int d
                        @ sub_slash_zero (CHR ''/'' # pad2 (y mod 100) @ [])"
    by (simp only: sub_slash_zero_pad2 [OF assms(2)])
  also have "\<dots> = str_int m @ CHR ''/'' # str_int d @ CHR ''/'' # str_int (y mod 100) @ []"
    by (simp only: sub_slash_zero_pad2 [OF yy] sub_slash_zero.simps)
  finally show ?thesis by simp
qed

lemma minus_one_day_bounds:
  assumes "1 \<le> m" "m \<le> 12" "1 \<le> d" "minus_one_day (y, m, d) = (y', m', d')"
  shows "1 \<le> m' \<and> 1 \<le> d' \<and> y - 1 \<le> y' \<and> y' \<le> y"
proof -
  have "1 \<le> days_in_month y (m - 1)" by (simp add: days_in_month_def)
  with assms show ?thesis by (auto split: if_splits)
qed

lemma prev_date_key:
  assumes "1 \<le> m" "m \<le> 12" "1 \<le> d" "2000 \<le> y" "y \<le> 2020"
    and "10 \<le> fst (minus_one_day (y, m, d)) mod 100"
  shows "sub_slash_zero (sub_start_zero (strftime (minus_one_day (y, m, d))))
           = date_key (minus_one_day (y, m, d))"
proof -
  obtain y' m' d' where p: "minus_one_day (y, m, d) = (y', m', d')"
    by (cases "minus_one_day (y, m, d)") auto
  from minus_one_day_bounds [OF assms(1-3) p]
  have b: "1 \<le> m'" "1 \<le> d'" "y - 1 \<le> y'" "y' \<le> y" by simp_all
  from assms(6) p have yy: "10 \<le> y' mod 100" by simp
  from b assms have "1000 \<le> y'" "y' < 10000" by simp_all
  then have "drop 2 (str_int y') = str_int (y' mod 100)"
    using yy by (rule year_suffix_two_digits)
  then show ?thesis
    unfolding p using prev_date_unpadded [OF b(1,2) yy] by (simp add: date_key_def)
qed

lemmas numeral_evals = str_int_def str_nat_1 str_nat_2 str_nat_4 digit_char_def

subsection \<open>The formatter\<close>

lemma get_date_str_in_bounds:
  assumes "1 \<le> day" "day \<le> 31" "1 \<le> month" "month \<le> 12" "2000 \<le> year" "year \<le> 2020"
  shows "get_date_str day month year = Inr (date_key (year, month, day))"
  using assms by (simp add: get_date_str_def date_key_def)

text \<open>
  Claim C4, as the code has it. For day, month and year within the bounds that
  \<open>get_date_str\<close> checks, the result is month, \<open>/\<close>, day, \<open>/\<close> and the last two
  decimal digits of the year: \<open>year mod 100\<close> padded with a zero to two characters. Month
  and day are written without a leading zero; the year keeps its zero from 2000 to 2009.
\<close>

theorem get_date_str_format:
  assumes "1 \<le> day" "day \<le> 31" "1 \<le> month" "month \<le> 12" "2000 \<le> year" "year \<le> 2020"
  shows "get_date_str day month year
           = Inr (str_int month @ ''/'' @ str_int day @ ''/'' @ pad2 (year mod 100))
         \<and> hd (str_int month) \<noteq> CHR ''0'' \<and> hd (str_int day) \<noteq> CHR ''0''"
proof -
  have "get_date_str day month year
          = Inr (str_int month @ ''/'' @ str_int day @ ''/'' @ drop 2 (str_int year))"
    using assms by (simp add: get_date_str_def)
  moreover have "drop 2 (str_int year) = pad2 (year mod 100)"
    using assms by (simp add: year_suffix)
  moreover have "hd (str_int month) \<noteq> CHR ''0''" "hd (str_int day) \<noteq> CHR ''0''"
    using assms by (simp_all add: str_int_hd)
  ultimately show ?thesis by simp
qed

theorem get_date_str_format_witness:
  "get_date_str 7 3 2005 = Inr ''3/7/05'' \<and> hd (str_int 3) \<noteq> CHR ''0'' \<and> hd (str_int 7) \<noteq> CHR ''0''"
proof -
  have e: "str_int 3 @ ''/'' @ str_int 7 @ ''/'' @ pad2 (2005 mod 100) = ''3/7/05''"
    by (simp add: pad2_def numeral_evals)
  from get_date_str_format [of 7 3 2005] show ?thesis
    unfolding e by simp
qed

text \<open>
  For 2005 the year field is \<open>05\<close>, not the unpadded \<open>5\<close> of \<open>year mod 100\<close>.
\<close>

theorem get_date_str_year_counterexample:
  "get_date_str 7 3 2005 = Inr ''3/7/05''
   \<and> get_date_str 7 3 2005 \<noteq> Inr (str_int 3 @ ''/'' @ str_int 7 @ ''/'' @ str_int (2005 mod 100))"
  by (simp add: get_date_str_def numeral_evals)

text \<open>
  Claim C5. \<open>get_date_str\<close> raises \<open>ValueError\<close> exactly when the day is outside 1..31,
  the month outside 1..12 or the year outside 2000..2020, and raises nothing else. The
  days of the month are not checked: 31 February 2020 is formatted as \<open>2/31/20\<close>.
\<close>

theorem get_date_str_error_iff:
  "(get_date_str day month year = Inl ValueError)
     = (day < 1 \<or> 31 < day \<or> month < 1 \<or> 12 < month \<or> year < 2000 \<or> 2020 < year)
   \<and> get_date_str day month year \<noteq> Inl KeyError
   \<and> get_date_str day month year \<noteq> Inl IndexError
   \<and> get_date_str 31 2 2020 = Inr ''2/31/20''"
proof -
  have "get_date_str 31 2 2020 = Inr ''2/31/20''"
    by (simp add: get_date_str_def numeral_evals)
  then show ?thesis by (auto simp: get_date_str_def)
qed

theorem get_date_str_error_iff_witness:
  "get_date_str 32 3 2020 = Inl ValueError \<and> get_date_str 31 2 2020 = Inr ''2/31/20''"
  using get_date_str_error_iff [of 32 3 2020] by simp

subsection \<open>The lookup of one country\<close>

text \<open>
  Claim C3. When the key of the date is a column, the lookup returns the cell of the
  first row labelled \<open>Poland\<close>, in the order of the frame, whatever rows follow it: the
  cells of further rows with the same label are not added.
\<close>

theorem poland_cases_by_date_first_row:
  assumes "get_date_str day month year = Inr date"
    and "date \<in> set (columns t)"
    and "rows t = before @ r # after"
    and "\<forall>p\<in>set before. country p \<noteq> ''Poland''"
    and "country r = ''Poland''"
  shows "poland_cases_by_date t day month year = Inr (cells r date)"
proof -
  from assms(4) have "filter (\<lambda>r. country r = ''Poland'') before = []"
    by (simp add: filter_empty_conv)
  with assms(3,5) have "filter (\<lambda>r. country r = ''Poland'') (rows t)
      = r # filter (\<lambda>r. country r = ''Poland'') after"
    by simp
  with assms(1,2) show ?thesis
    by (simp add: poland_cases_by_date_def)
qed

theorem poland_cases_by_date_first_row_witness:
  "poland_cases_by_date sample_table 7 3 2020 = Inr 5"
proof -
  let ?r = "\<lparr>country = ''Poland'', cells = cells_of [(''3/6/20'', 1), (''3/7/20'', 5)]\<rparr>"
  let ?after = "[\<lparr>country = ''Germany'', cells = cells_of [(''3/6/20'', 9), (''3/7/20'', 9)]\<rparr>,
                 \<lparr>country = ''Poland'', cells = cells_of [(''3/6/20'', 8), (''3/7/20'', 7)]\<rparr>]"
  have d: "get_date_str 7 3 2020 = Inr ''3/7/20''"
    by (simp add: get_date_str_def numeral_evals)
  have c: "''3/7/20'' \<in> set (columns sample_table)"
    by (simp add: sample_table_def)
  have r: "rows sample_table = [] @ ?r # ?after"
    by (simp add: sample_table_def)
  have b: "\<forall>p\<in>set []. country p \<noteq> ''Poland''" by simp
  have p: "country ?r = ''Poland''" by simp
  from poland_cases_by_date_first_row [OF d c r b p] show ?thesis
    by (simp add: cells_of_def)
qed

text \<open>
  Claim C6, as the code has it. The three failures of the lookup come in a fixed order:
  \<open>ValueError\<close> when \<open>get_date_str\<close> raises it; otherwise \<open>KeyError\<close> when the key is not a
  column, whether or not a row is labelled \<open>Poland\<close>; otherwise \<open>IndexError\<close> when no
  row is labelled \<open>Poland\<close>.
\<close>

theorem poland_cases_by_date_errors:
  "(get_date_str day month year = Inl ValueError
      \<longrightarrow> poland_cases_by_date t day month year = Inl ValueError)
   \<and> (get_date_str day month year = Inr date \<and> date \<notin> set (columns t)
      \<longrightarrow> poland_cases_by_date t day month year = Inl KeyError)
   \<and> (get_date_str day month year = Inr date \<and> date \<in> set (columns t)
        \<and> (\<forall>r\<in>set (rows t). country r \<noteq> ''Poland'')
      \<longrightarrow> poland_cases_by_date t day month year = Inl IndexError)"
  by (auto simp: poland_cases_by_date_def filter_empty_conv split: list.splits)

theorem poland_cases_by_date_errors_witness:
  "poland_cases_by_date germany_table 0 3 2020 = Inl ValueError
   \<and> poland_cases_by_date germany_table 8 3 2020 = Inl KeyError
   \<and> poland_cases_by_date germany_table 7 3 2020 = Inl IndexError"
proof -
  have v: "get_date_str 0 3 2020 = Inl ValueError"
    by (simp add: get_date_str_def)
  have k: "get_date_str 8 3 2020 = Inr ''3/8/20'' \<and> ''3/8/20'' \<notin> set (columns germany_table)"
    by (simp add: get_date_str_def numeral_evals germany_table_def)
  have i: "get_date_str 7 3 2020 = Inr ''3/7/20'' \<and> ''3/7/20'' \<in> set (columns germany_table)
           \<and> (\<forall>r\<in>set (rows germany_table). country r \<noteq> ''Poland'')"
    by (simp add: get_date_str_def numeral_evals germany_table_def)
  from v k i
    poland_cases_by_date_errors [where day = 0 and month = 3 and year = 2020 and t = germany_table]
    poland_cases_by_date_errors [where day = 8 and month = 3 and year = 2020 and t = germany_table
      and date = "''3/8/20''"]
    poland_cases_by_date_errors [where day = 7 and month = 3 and year = 2020 and t = germany_table
      and date = "''3/7/20''"]
  show ?thesis by blast
qed

text \<open>
  A frame without a row for Poland, asked for a date that is not a column: the failure is
  \<open>KeyError\<close>, not \<open>IndexError\<close>.
\<close>

theorem poland_cases_by_date_country_counterexample:
  "filter (\<lambda>r. country r = ''Poland'') (rows germany_table) = []
   \<and> poland_cases_by_date germany_table 8 3 2020 = Inl KeyError
   \<and> poland_cases_by_date germany_table 8 3 2020 \<noteq> Inl IndexError"
  by (simp add: poland_cases_by_date_def get_date_str_def numeral_evals germany_table_def)

lemma call_poland_cases_by_date_step:
  assumes "valid_state s"
    and "call_poland_cases_by_date day month year s = (v, s')"
  shows "v = poland_cases_by_date (frames s ! confirmed_cases_ref s) day month year"
    and "confirmed_cases_ref s' = confirmed_cases_ref s"
    and "take (length (frames s)) (frames s') = frames s"
    and "valid_state s'"
proof -
  let ?a = "confirmed_cases_ref s"
  let ?selected = "\<lparr>columns = columns (frames s ! ?a),
                     rows = filter (\<lambda>r. country r = ''Poland'') (rows (frames s ! ?a))\<rparr>"
  show "v = poland_cases_by_date (frames s ! confirmed_cases_ref s) day month year"
  proof (cases "get_date_str day month year")
    case (Inl e)
    with assms(2) show ?thesis
      by (simp add: call_poland_cases_by_date_def poland_cases_by_date_def)
  next
    case (Inr date)
    with assms(2) have "v = getitem_iloc0 date (length (frames s)) (s\<lparr>frames := frames s @ [?selected]\<rparr>)"
      by (auto simp: call_poland_cases_by_date_def loc_country_eq_def Let_def)
    with Inr show ?thesis
      by (simp add: getitem_iloc0_def poland_cases_by_date_def)
  qed
  from assms(2) have s': "s' = s \<or> s' = s\<lparr>frames := frames s @ [?selected]\<rparr>"
    by (auto simp: call_poland_cases_by_date_def loc_country_eq_def Let_def split: sum.splits)
  then show "confirmed_cases_ref s' = confirmed_cases_ref s" by auto
  from s' show "take (length (frames s)) (frames s') = frames s" by auto
  from s' assms(1) show "valid_state s'" by (auto simp: valid_state_def)
qed

text \<open>
  Claim C9. Two calls in a row with the same arguments, the second in the state that the
  first has left, return the same value: the value of \<open>poland_cases_by_date\<close> on the frame
  that \<open>confirmed_cases\<close> names and the arguments. Neither call rebinds
  \<open>confirmed_cases\<close> or changes a frame that was there before it.
\<close>

theorem poland_cases_by_date_repeatable:
  assumes "valid_state s"
    and "call_poland_cases_by_date day month year s = (v1, s1)"
    and "call_poland_cases_by_date day month year s1 = (v2, s2)"
  shows "v2 = v1
       \<and> v1 = poland_cases_by_date (frames s ! confirmed_cases_ref s) day month year
       \<and> confirmed_cases_ref s1 = confirmed_cases_ref s
       \<and> confirmed_cases_ref s2 = confirmed_cases_ref s
       \<and> frames s1 ! confirmed_cases_ref s1 = frames s ! confirmed_cases_ref s
       \<and> frames s2 ! confirmed_cases_ref s2 = frames s ! confirmed_cases_ref s
       \<and> take (length (frames s)) (frames s1) = frames s
       \<and> take (length (frames s)) (frames s2) = frames s"
proof -
  note a = call_poland_cases_by_date_step [OF assms(1,2)]
  note b = call_poland_cases_by_date_step [OF a(4) assms(3)]
  have n: "confirmed_cases_ref s < length (frames s)"
    using assms(1) by (simp add: valid_state_def)
  have l1: "length (frames s) \<le> length (frames s1)"
    using a(3) by (metis length_take min.cobounded1)
  have f1: "frames s1 ! confirmed_cases_ref s = frames s ! confirmed_cases_ref s"
    using a(3) n by (metis nth_take)
  have n1: "confirmed_cases_ref s < length (frames s1)"
    using n l1 by simp
  have f2: "frames s2 ! confirmed_cases_ref s = frames s1 ! confirmed_cases_ref s"
    using b(3) n1 by (metis nth_take)
  have t2: "take (length (frames s)) (frames s2) = frames s"
  proof -
    have "take (length (frames s)) (frames s2)
            = take (length (frames s)) (take (length (frames s1)) (frames s2))"
      using l1 by (simp add: min_def)
    also have "\<dots> = take (length (frames s)) (frames s1)" by (simp only: b(3))
    finally show ?thesis by (simp only: a(3))
  qed
  show ?thesis
    using a(1,2,3) b(1,2) f1 f2 t2 by simp
qed

theorem poland_cases_by_date_repeatable_witness:
  "fst (call_poland_cases_by_date 7 3 2020 sample_state) = Inr 5
   \<and> fst (call_poland_cases_by_date 7 3 2020 (snd (call_poland_cases_by_date 7 3 2020 sample_state)))
       = Inr 5
   \<and> frames (snd (call_poland_cases_by_date 7 3 2020 sample_state)) ! 0 = sample_table"
proof -
  have v: "valid_state sample_state"
    by (simp add: valid_state_def sample_state_def)
  have c1: "call_poland_cases_by_date 7 3 2020 sample_state
      = (fst (call_poland_cases_by_date 7 3 2020 sample_state),
         snd (call_poland_cases_by_date 7 3 2020 sample_state))"
    by simp
  have c2: "call_poland_cases_by_date 7 3 2020 (snd (call_poland_cases_by_date 7 3 2020 sample_state))
      = (fst (call_poland_cases_by_date 7 3 2020 (snd (call_poland_cases_by_date 7 3 2020 sample_state))),
         snd (call_poland_cases_by_date 7 3 2020 (snd (call_poland_cases_by_date 7 3 2020 sample_state))))"
    by simp
  have e: "poland_cases_by_date sample_table 7 3 2020 = Inr 5"
    by (simp add: poland_cases_by_date_def get_date_str_def numeral_evals sample_table_def
        cells_of_def)
  have r: "frames sample_state ! 0 = sample_table" "confirmed_cases_ref sample_state = 0"
    by (simp_all add: sample_state_def)
  note t = poland_cases_by_date_repeatable [OF v c1 c2]
  from t e r have 1: "fst (call_poland_cases_by_date 7 3 2020 sample_state) = Inr 5"
    by simp
  from t 1 have 2:
    "fst (call_poland_cases_by_date 7 3 2020 (snd (call_poland_cases_by_date 7 3 2020 sample_state)))
       = Inr 5"
    by simp
  from t have "confirmed_cases_ref (snd (call_poland_cases_by_date 7 3 2020 sample_state))
      = confirmed_cases_ref sample_state"
    and "frames (snd (call_poland_cases_by_date 7 3 2020 sample_state))
           ! confirmed_cases_ref (snd (call_poland_cases_by_date 7 3 2020 sample_state))
         = frames sample_state ! confirmed_cases_ref sample_state"
    by blast+
  then have 3: "frames (snd (call_poland_cases_by_date 7 3 2020 sample_state)) ! 0 = sample_table"
    by (simp add: r)
  from 1 2 3 show ?thesis by simp
qed

subsection \<open>The count of changed rows\<close>

lemma no_new_cases_count_unfold:
  assumes "1 \<le> day" "day \<le> 31" "1 \<le> month" "month \<le> 12" "2000 \<le> year" "year \<le> 2020"
  shows "no_new_cases_count t day month year =
     (if days_in_month year month < day then Inl ValueError
      else if date_key (year, month, day) \<notin> set (columns t)
              \<or> sub_slash_zero (sub_start_zero (strftime (minus_one_day (year, month, day))))
                   \<notin> set (columns t)
      then Inl KeyError
      else Inr (int (length (filter (\<lambda>r. cells r (date_key (year, month, day))
          \<noteq> cells r (sub_slash_zero (sub_start_zero (strftime (minus_one_day (year, month, day))))))
          (rows t)))))"
proof -
  have p: "strptime (date_key (year, month, day))
        = (if day \<le> days_in_month year month then Inr (year, month, day) else Inl ValueError)"
    using strptime_formatted [OF assms] by (simp add: date_key_def)
  show ?thesis
    unfolding no_new_cases_count_def get_date_str_in_bounds [OF assms]
    by (simp add: p Let_def)
qed

lemma no_new_cases_count_changed_rows:
  assumes "1 \<le> day" "day \<le> days_in_month year month" "1 \<le> month" "month \<le> 12"
    and "2000 \<le> year" "year \<le> 2020"
    and "10 \<le> fst (minus_one_day (year, month, day)) mod 100"
    and "date_key (year, month, day) \<in> set (columns t)"
    and "date_key (minus_one_day (year, month, day)) \<in> set (columns t)"
  shows "no_new_cases_count t day month year =
           Inr (int (length (filter (\<lambda>r. cells r (date_key (year, month, day))
                     \<noteq> cells r (date_key (minus_one_day (year, month, day)))) (rows t))))"
proof -
  have "days_in_month year month \<le> 31" by (simp add: days_in_month_def)
  with assms(2) have d: "day \<le> 31" by simp
  have k: "sub_slash_zero (sub_start_zero (strftime (minus_one_day (year, month, day))))
             = date_key (minus_one_day (year, month, day))"
    using assms by (intro prev_date_key) simp_all
  show ?thesis
    unfolding no_new_cases_count_unfold [OF assms(1) d assms(3-6)] k
    using assms(2,8,9) by simp
qed

lemma no_new_cases_count_sample: "no_new_cases_count sample_table 7 3 2020 = Inr 2"
proof -
  have k: "date_key (2020, 3, 7) = ''3/7/20''" "date_key (2020, 3, 6) = ''3/6/20''"
    by (simp_all add: date_key_def numeral_evals)
  have "no_new_cases_count sample_table 7 3 2020 =
          Inr (int (length (filter (\<lambda>r. cells r (date_key (2020, 3, 7))
                 \<noteq> cells r (date_key (minus_one_day (2020, 3, 7)))) (rows sample_table))))"
    by (rule no_new_cases_count_changed_rows)
       (simp_all add: days_in_month_def k sample_table_def)
  then show ?thesis by (simp add: k sample_table_def cells_of_def)
qed

text \<open>
  Claim C1 asks for the number of rows whose cell at the key of the date differs from the
  cell at the key of the day before, whenever both keys are columns. From 2010 on this
  is what \<open>no_new_cases_count\<close> returns (\<open>no_new_cases_count_changed_rows\<close>). For the
  years 2000 to 2009, which \<open>get_date_str\<close> accepts, the second substitution also
  removes the zero of the year: on 8 March 2005 both keys, \<open>3/8/05\<close> and \<open>3/7/05\<close>, are
  columns of the frame and one row has changed, but the function looks for \<open>3/7/5\<close> and
  fails with \<open>KeyError\<close>.
\<close>

theorem no_new_cases_count_year_2005:
  "date_key (2005, 3, 8) \<in> set (columns table_2005)
   \<and> date_key (minus_one_day (2005, 3, 8)) \<in> set (columns table_2005)
   \<and> int (length (filter (\<lambda>r. cells r (date_key (2005, 3, 8))
            \<noteq> cells r (date_key (minus_one_day (2005, 3, 8)))) (rows table_2005))) = 1
   \<and> sub_slash_zero (sub_start_zero (strftime (minus_one_day (2005, 3, 8)))) = ''3/7/5''
   \<and> no_new_cases_count table_2005 8 3 2005 = Inl KeyError"
proof -
  have k: "date_key (2005, 3, 8) = ''3/8/05''" "date_key (minus_one_day (2005, 3, 8)) = ''3/7/05''"
    by (simp_all add: date_key_def numeral_evals)
  have p: "sub_slash_zero (sub_start_zero (strftime (minus_one_day (2005, 3, 8)))) = ''3/7/5''"
    by (simp add: pad2_def numeral_evals)
  have "no_new_cases_count table_2005 8 3 2005 =
          (if days_in_month 2005 3 < 8 then Inl ValueError
           else if ''3/8/05'' \<notin> set (columns table_2005) \<or> ''3/7/5'' \<notin> set (columns table_2005)
           then Inl KeyError
           else Inr (int (length (filter (\<lambda>r. cells r ''3/8/05'' \<noteq> cells r ''3/7/5'')
                                          (rows table_2005)))))"
    by (simp only: k(1) [symmetric] p [symmetric], rule no_new_cases_count_unfold) simp_all
  then have "no_new_cases_count table_2005 8 3 2005 = Inl KeyError"
    by (simp add: days_in_month_def table_2005_def)
  with k p show ?thesis by (simp add: table_2005_def cells_of_def)
qed

theorem no_new_cases_count_year_2005_witness:
  "no_new_cases_count table_2005 8 3 2005 \<noteq> Inr 1"
  using no_new_cases_count_year_2005 by simp

text \<open>
  Claim C7, as the code has it. For a date within the bounds of \<open>get_date_str\<close>:
  a day that the month does not have (31 February) passes \<open>get_date_str\<close> and is then
  refused by \<open>strptime\<close> with \<open>ValueError\<close>, before any column is looked up; for a day of
  the calendar, \<open>KeyError\<close> is raised when the key of the date is not a column, and when
  the key of the day before is not a column (as for the first date of the series). The
  last case is stated for a day before whose two-digit year is 10 or more.
\<close>

theorem no_new_cases_count_errors:
  assumes "1 \<le> day" "day \<le> 31" "1 \<le> month" "month \<le> 12" "2000 \<le> year" "year \<le> 2020"
  shows "(days_in_month year month < day
            \<longrightarrow> no_new_cases_count t day month year = Inl ValueError)
       \<and> (day \<le> days_in_month year month \<and> date_key (year, month, day) \<notin> set (columns t)
            \<longrightarrow> no_new_cases_count t day month year = Inl KeyError)
       \<and> (day \<le> days_in_month year month
            \<and> 10 \<le> fst (minus_one_day (year, month, day)) mod 100
            \<and> date_key (minus_one_day (year, month, day)) \<notin> set (columns t)
            \<longrightarrow> no_new_cases_count t day month year = Inl KeyError)"
proof -
  have k: "10 \<le> fst (minus_one_day (year, month, day)) mod 100 \<Longrightarrow>
      sub_slash_zero (sub_start_zero (strftime (minus_one_day (year, month, day))))
             = date_key (minus_one_day (year, month, day))"
    using assms by (intro prev_date_key) simp_all
  show ?thesis
    unfolding no_new_cases_count_unfold [OF assms]
    using k by auto
qed

theorem no_new_cases_count_errors_witness:
  "no_new_cases_count sample_table 31 2 2020 = Inl ValueError
   \<and> no_new_cases_count sample_table 8 3 2020 = Inl KeyError
   \<and> no_new_cases_count sample_table 6 3 2020 = Inl KeyError"
proof -
  have v: "days_in_month 2020 2 < 31"
    by (simp add: days_in_month_def is_leap_def)
  have a: "8 \<le> days_in_month 2020 3 \<and> date_key (2020, 3, 8) \<notin> set (columns sample_table)"
    by (simp add: days_in_month_def date_key_def numeral_evals sample_table_def)
  have b: "6 \<le> days_in_month 2020 3 \<and> 10 \<le> fst (minus_one_day (2020, 3, 6)) mod 100
           \<and> date_key (minus_one_day (2020, 3, 6)) \<notin> set (columns sample_table)"
    by (simp add: days_in_month_def date_key_def numeral_evals sample_table_def)
  from v a b
    no_new_cases_count_errors [where day = 31 and month = 2 and year = 2020 and t = sample_table]
    no_new_cases_count_errors [where day = 8 and month = 3 and year = 2020 and t = sample_table]
    no_new_cases_count_errors [where day = 6 and month = 3 and year = 2020 and t = sample_table]
  show ?thesis by simp
qed

text \<open>
  31 February 2020 is formatted by \<open>get_date_str\<close>, and the count then fails with
  \<open>ValueError\<close>, not with \<open>KeyError\<close>.
\<close>

theorem no_new_cases_count_feb_31_counterexample:
  "get_date_str 31 2 2020 = Inr ''2/31/20''
   \<and> no_new_cases_count sample_table 31 2 2020 = Inl ValueError
   \<and> no_new_cases_count sample_table 31 2 2020 \<noteq> Inl KeyError"
  by (simp add: no_new_cases_count_unfold get_date_str_def numeral_evals
      days_in_month_def is_leap_def)

subsection \<open>The ranking\<close>

lemma stable_sort_values_sorts: "sorts_descending stable_sort_values"
proof -
  have "sorted_wrt (\<lambda>a b. snd b \<le> snd a) (rev (sort_key snd (rev gs)))" for gs :: "(string \<times> int) list"
  proof -
    have "sorted (map snd (sort_key snd (rev gs)))" by simp
    then have "sorted_wrt (\<lambda>a b. snd a \<le> snd b) (sort_key snd (rev gs))"
      by (simp only: sorted_map)
    then show ?thesis by (simp add: sorted_wrt_rev)
  qed
  then show ?thesis
    by (simp add: sorts_descending_def stable_sort_values_def)
qed

lemma stable_sort_values_keeps_ties:
  "filter (\<lambda>g. snd g = k) (stable_sort_values gs) = filter (\<lambda>g. snd g = k) gs"
proof -
  have "filter (\<lambda>g. snd g = k) (stable_sort_values gs)
          = rev (filter (\<lambda>g. snd g = k) (sort_key snd (rev gs)))"
    by (simp add: stable_sort_values_def rev_filter)
  also have "\<dots> = rev (filter (\<lambda>g. snd g = k) (rev gs))"
    by (simp only: sort_key_stable)
  also have "\<dots> = filter (\<lambda>g. snd g = k) gs"
    by (simp add: rev_filter)
  finally show ?thesis .
qed

lemma groupby_sum_labels:
  "map fst (groupby_sum t date) = sort (remdups (map country (rows t)))"
  by (simp add: groupby_sum_def comp_def)

lemma groupby_sum_values:
  "g \<in> set (groupby_sum t date) \<Longrightarrow> snd g = group_sum t date (fst g)"
  by (auto simp: groupby_sum_def)

lemma top5_ranking:
  assumes "sorts_descending sort_values"
    and "get_date_str day month year = Inr date"
    and "date \<in> set (columns t)"
  defines "ranking \<equiv> sort_values (groupby_sum t date)"
  shows "top5_countries_by_date sort_values t day month year = Inr (take 5 (map fst ranking))"
    and "distinct (map fst ranking)"
    and "set (map fst ranking) = country ` set (rows t)"
    and "length ranking = card (country ` set (rows t))"
    and "\<forall>g\<in>set ranking. snd g = group_sum t date (fst g)"
    and "sorted_wrt (\<lambda>a b. snd b \<le> snd a) ranking"
proof -
  from assms(1) have m: "mset ranking = mset (groupby_sum t date)"
    and s: "sorted_wrt (\<lambda>a b. snd b \<le> snd a) ranking"
    by (simp_all add: sorts_descending_def ranking_def)
  from m have ml: "mset (map fst ranking) = mset (map fst (groupby_sum t date))"
    by simp
  show "top5_countries_by_date sort_values t day month year = Inr (take 5 (map fst ranking))"
    using assms(2,3) by (simp add: top5_countries_by_date_def ranking_def take_map)
  have "distinct (map fst (groupby_sum t date))"
    by (simp add: groupby_sum_labels)
  with ml show "distinct (map fst ranking)"
    by (metis mset_eq_imp_distinct_iff)
  from ml have "set (map fst ranking) = set (map fst (groupby_sum t date))"
    by (rule mset_eq_setD)
  then show "set (map fst ranking) = country ` set (rows t)"
    by (simp add: groupby_sum_labels)
  from m have "length ranking = length (groupby_sum t date)"
    by (rule mset_eq_length)
  also have "\<dots> = length (map fst (groupby_sum t date))" by simp
  also have "\<dots> = card (country ` set (rows t))"
    unfolding groupby_sum_labels by (simp add: length_remdups_card_conv)
  finally show "length ranking = card (country ` set (rows t))" .
  from m have "set ranking = set (groupby_sum t date)" by (rule mset_eq_setD)
  then show "\<forall>g\<in>set ranking. snd g = group_sum t date (fst g)"
    by (simp add: groupby_sum_values)
  show "sorted_wrt (\<lambda>a b. snd b \<le> snd a) ranking" by (rule s)
qed

text \<open>
  Claim C2, as the code has it. When the key of the date is a column, the result is the
  first five labels of a ranking in which every label of the frame stands once, with the
  sum of the cells of all its rows at that key, in non-increasing order of the sums.
  Nothing more is fixed about groups with equal sums: the groups reach the sort in
  ascending order of their labels, not in order of first appearance, and the sort need
  not be stable.
\<close>

theorem top5_countries_by_date_ranking:
  assumes "sorts_descending sort_values"
    and "get_date_str day month year = Inr date"
    and "date \<in> set (columns t)"
  shows "\<exists>ranking.
           top5_countries_by_date sort_values t day month year = Inr (take 5 (map fst ranking))
           \<and> distinct (map fst ranking)
           \<and> set (map fst ranking) = country ` set (rows t)
           \<and> (\<forall>g\<in>set ranking. snd g = group_sum t date (fst g))
           \<and> sorted_wrt (\<lambda>a b. snd b \<le> snd a) ranking"
  using top5_ranking [OF assms] by blast

lemma sample_date: "get_date_str 7 3 2020 = Inr ''3/7/20''"
  by (simp add: get_date_str_def numeral_evals)

lemma sample_ranking:
  "top5_countries_by_date stable_sort_values sample_table 7 3 2020 = Inr [''Poland'', ''Germany'']"
  by (simp add: top5_countries_by_date_def sample_date sample_table_def groupby_sum_def
      group_sum_def cells_of_def stable_sort_values_def)

theorem top5_countries_by_date_ranking_witness:
  "top5_countries_by_date stable_sort_values sample_table 7 3 2020 = Inr [''Poland'', ''Germany'']
   \<and> group_sum sample_table ''3/7/20'' ''Poland'' = 12
   \<and> group_sum sample_table ''3/7/20'' ''Germany'' = 9"
proof -
  have c: "''3/7/20'' \<in> set (columns sample_table)"
    by (simp add: sample_table_def)
  have g: "group_sum sample_table ''3/7/20'' ''Poland'' = 12"
      "group_sum sample_table ''3/7/20'' ''Germany'' = 9"
    by (simp_all add: group_sum_def sample_table_def cells_of_def)
  from top5_countries_by_date_ranking [OF stable_sort_values_sorts sample_date c]
    sample_ranking g
  show ?thesis by simp
qed

text \<open>
  Two groups with equal sums, Poland first in the frame: with a stable sort the code
  returns Germany before Poland, the ranking by first appearance has Poland first.
\<close>

theorem top5_countries_by_date_tie_counterexample:
  "top5_countries_by_date stable_sort_values tied_table 7 3 2020 = Inr [''Germany'', ''Poland'']
   \<and> spec_top_n 5 tied_table ''3/7/20'' = [''Poland'', ''Germany'']
   \<and> top5_countries_by_date stable_sort_values tied_table 7 3 2020
       \<noteq> Inr (spec_top_n 5 tied_table ''3/7/20'')"
proof -
  have a: "top5_countries_by_date stable_sort_values tied_table 7 3 2020
             = Inr [''Germany'', ''Poland'']"
    by (simp add: top5_countries_by_date_def sample_date tied_table_def groupby_sum_def
        group_sum_def cells_of_def stable_sort_values_def)
  have b: "spec_top_n 5 tied_table ''3/7/20'' = [''Poland'', ''Germany'']"
    by (simp add: spec_top_n_def first_appearance_def tied_table_def group_sum_def cells_of_def)
  from a b show ?thesis by simp
qed

text \<open>
  Claim C8, for the five labels that the source asks for (\<open>head(5)\<close>). When the key of
  the date is a column, the result has \<open>min 5 c\<close> labels, where \<open>c\<close> is the number of
  distinct labels of the frame; with five labels or fewer in the frame it holds them all;
  and the sums of the returned labels are non-increasing along the result.
\<close>

theorem top5_countries_by_date_length_sorted:
  assumes "sorts_descending sort_values"
    and "get_date_str day month year = Inr date"
    and "date \<in> set (columns t)"
  shows "\<exists>ls. top5_countries_by_date sort_values t day month year = Inr ls
           \<and> length ls = min 5 (card (country ` set (rows t)))
           \<and> (card (country ` set (rows t)) \<le> 5 \<longrightarrow> set ls = country ` set (rows t))
           \<and> sorted_wrt (\<lambda>a b. b \<le> a) (map (group_sum t date) ls)"
proof -
  define ranking where "ranking = sort_values (groupby_sum t date)"
  note r = top5_ranking [OF assms, folded ranking_def]
  have "\<forall>g\<in>set (take 5 ranking). snd g = group_sum t date (fst g)"
    using r(5) by (meson in_set_takeD)
  then have "map (group_sum t date) (take 5 (map fst ranking)) = map snd (take 5 ranking)"
    by (simp add: take_map)
  moreover have "sorted_wrt (\<lambda>a b. b \<le> a) (map snd (take 5 ranking))"
    using r(6) by (simp add: sorted_wrt_map sorted_wrt_take)
  moreover have "length (take 5 (map fst ranking)) = min 5 (card (country ` set (rows t)))"
    using r(4) by simp
  moreover have "card (country ` set (rows t)) \<le> 5
      \<longrightarrow> set (take 5 (map fst ranking)) = country ` set (rows t)"
    using r(3,4) by simp
  ultimately show ?thesis using r(1) by simp
qed

theorem top5_countries_by_date_length_sorted_witness:
  "top5_countries_by_date stable_sort_values sample_table 7 3 2020 = Inr [''Poland'', ''Germany'']
   \<and> length [''Poland'', ''Germany''] = min 5 (card (country ` set (rows sample_table)))
   \<and> sorted_wrt (\<lambda>a b. b \<le> a) (map (group_sum sample_table ''3/7/20'') [''Poland'', ''Germany''])"
proof -
  have c: "''3/7/20'' \<in> set (columns sample_table)"
    by (simp add: sample_table_def)
  from top5_countries_by_date_length_sorted [OF stable_sort_values_sorts sample_date c]
    sample_ranking
  show ?thesis by simp
qed

text \<open>
  Claim C10. When the key of the date is a column, no label stands twice in the result,
  however many rows of the frame carry it.
\<close>

theorem top5_countries_by_date_distinct:
  assumes "sorts_descending sort_values"
    and "get_date_str day month year = Inr date"
    and "date \<in> set (columns t)"
  shows "\<exists>ls. top5_countries_by_date sort_values t day month year = Inr ls \<and> distinct ls"
  using top5_ranking(1,2) [OF assms] by (simp add: distinct_take)

theorem top5_countries_by_date_distinct_witness:
  "top5_countries_by_date stable_sort_values sample_table 7 3 2020 = Inr [''Poland'', ''Germany'']
   \<and> distinct [''Poland'', ''Germany'']"
proof -
  have c: "''3/7/20'' \<in> set (columns sample_table)"
    by (simp add: sample_table_def)
  from top5_countries_by_date_distinct [OF stable_sort_values_sorts sample_date c]
    sample_ranking
  show ?thesis by simp
qed

end
